theory Spec2Isabelle
  imports Main
begin

section \<open>JavaScript string operations used by the action\<close>

text \<open>
  A JavaScript string is modelled as a \<open>string\<close>, one \<open>char\<close> per code unit, for code
  units in the range U+0000..U+00FF (Latin-1). Each operation below is the ECMAScript
  method of the same name on that range.
\<close>

fun startsWith :: "string \<Rightarrow> string \<Rightarrow> bool" where
  "startsWith s [] = True"
| "startsWith [] (p # ps) = False"
| "startsWith (c # cs) (p # ps) = (c = p \<and> startsWith cs ps)"

fun includesStr :: "string \<Rightarrow> string \<Rightarrow> bool" where
  "includesStr [] sub = (sub = [])"
| "includesStr (c # cs) sub = (startsWith (c # cs) sub \<or> includesStr cs sub)"

definition endsWith :: "string \<Rightarrow> string \<Rightarrow> bool" where
  "endsWith s suf = startsWith (rev s) (rev suf)"

definition toLowerChar :: "char \<Rightarrow> char" where
  "toLowerChar c =
     (let n = (of_char c :: nat)
      in if (65 \<le> n \<and> n \<le> 90) \<or> (192 \<le> n \<and> n \<le> 214) \<or> (216 \<le> n \<and> n \<le> 222)
         then char_of (n + 32) else c)"

definition toLowerCase :: "string \<Rightarrow> string" where
  "toLowerCase s = map toLowerChar s"

definition isWhiteSpace :: "char \<Rightarrow> bool" where
  \<comment> \<open>TAB, LF, VT, FF, CR, SP and NBSP: the WhiteSpace and LineTerminator code units below U+0100\<close>
  "isWhiteSpace c = ((of_char c :: nat) \<in> {9, 10, 11, 12, 13, 32, 160})"

definition trim :: "string \<Rightarrow> string" where
  "trim s = rev (dropWhile isWhiteSpace (rev (dropWhile isWhiteSpace s)))"

fun lastIndexFrom :: "nat \<Rightarrow> char \<Rightarrow> string \<Rightarrow> int \<Rightarrow> int" where
  "lastIndexFrom i ch [] found = found"
| "lastIndexFrom i ch (c # cs) found =
     lastIndexFrom (Suc i) ch cs (if c = ch then int i else found)"

definition lastIndexOf :: "string \<Rightarrow> char \<Rightarrow> int" where
  \<comment> \<open>index of the last occurrence, \<open>-1\<close> when there is none\<close>
  "lastIndexOf s ch = lastIndexFrom 0 ch s (- 1)"

definition slice :: "string \<Rightarrow> int \<Rightarrow> string" where
  \<comment> \<open>\<open>s.slice(start)\<close>: a negative start counts from the end\<close>
  "slice s start =
     (let len = int (length s);
          from = (if start < 0 then max (len + start) 0 else min start len)
      in drop (nat from) s)"

fun replaceFirst :: "string \<Rightarrow> string \<Rightarrow> string \<Rightarrow> string" where
  \<comment> \<open>\<open>s.replace(/pat/, rep)\<close> for a pattern that is a literal: the leftmost occurrence\<close>
  "replaceFirst pat rep [] = (if pat = [] then rep else [])"
| "replaceFirst pat rep (c # cs) =
     (if startsWith (c # cs) pat then rep @ drop (length pat) (c # cs)
      else c # replaceFirst pat rep cs)"

definition replaceAtEnd :: "string \<Rightarrow> string \<Rightarrow> string \<Rightarrow> string" where
  \<comment> \<open>\<open>s.replace(/pat$/, rep)\<close> for a pattern that is a literal\<close>
  "replaceAtEnd pat rep s =
     (if endsWith s pat then take (length s - length pat) s @ rep else s)"

definition stripExtension :: "string \<Rightarrow> string" where
  \<comment> \<open>\<open>s.replace(/\.[^/.]+$/, '')\<close>: a match starts at the last dot and needs one or more
      characters after it, none of them a slash\<close>
  "stripExtension s =
     (let i = lastIndexOf s (CHR ''.'')
      in if i < 0 then s
         else let rest = drop (nat i + 1) s
              in if rest \<noteq> [] \<and> CHR ''/'' \<notin> set rest then take (nat i) s else s)"

section \<open>Glob matching (minimatch)\<close>

text \<open>
  \<open>minimatch(path, pattern)\<close> with default options on a POSIX platform, for patterns
  made of literal characters, \<open>*\<close> and the path segment \<open>**\<close> (every pattern of
  \<open>TEST_PATTERNS\<close> is of this form). The path and the pattern are split at runs of
  slashes; a pattern segment is the globstar, a literal, or a segment with stars, which is
  matched as the regular expression minimatch generates for it: anchored, each star any run
  of characters, the segment not empty and not starting with a line terminator, and not
  starting with a dot when the pattern segment starts with a star. Releases of minimatch
  that test a pattern of the form \<open>*.ext\<close> without the regular expression differ from
  this on segments that start with a line terminator only.
\<close>

fun slashSplitFrom :: "string \<Rightarrow> string \<Rightarrow> string list" where
  "slashSplitFrom cur [] = [cur]"
| "slashSplitFrom cur [c] = (if c = CHR ''/'' then [cur, []] else [cur @ [c]])"
| "slashSplitFrom cur (c # d # cs) =
     (if c = CHR ''/''
      then (if d = CHR ''/'' then slashSplitFrom cur (d # cs)
            else cur # slashSplitFrom [] (d # cs))
      else slashSplitFrom (cur @ [c]) (d # cs))"

definition slashSplit :: "string \<Rightarrow> string list" where
  \<comment> \<open>\<open>p.split(/\/+/)\<close>\<close>
  "slashSplit p = slashSplitFrom [] p"

datatype pattern_part = GLOBSTAR | Literal string | Magic string

definition parse :: "string \<Rightarrow> pattern_part" where
  "parse seg =
     (if seg = ''**'' then GLOBSTAR
      else if CHR ''*'' \<in> set seg then Magic seg
      else Literal seg)"

fun starMatch :: "string \<Rightarrow> string \<Rightarrow> bool" where
  "starMatch [] f = (f = [])"
| "starMatch (p # ps) [] = (p = CHR ''*'' \<and> starMatch ps [])"
| "starMatch (p # ps) (c # cs) =
     (if p = CHR ''*'' then starMatch ps (c # cs) \<or> starMatch (p # ps) cs
      else p = c \<and> starMatch ps cs)"

definition magicTest :: "string \<Rightarrow> string \<Rightarrow> bool" where
  "magicTest pat f =
     (case f of
        [] \<Rightarrow> False
      | c # cs \<Rightarrow>
          c \<noteq> CHR 0x0A \<and> c \<noteq> CHR 0x0D
          \<and> \<not> (startsWith pat ''*'' \<and> c = CHR ''.'')
          \<and> starMatch pat f)"

definition dotSegment :: "string \<Rightarrow> bool" where
  \<comment> \<open>\<open>.\<close>, \<open>..\<close> and hidden names: a globstar never swallows them\<close>
  "dotSegment f = startsWith f ''.''"

text \<open>
  \<open>matchOne\<close> walks the segments of the path and the parts of the pattern together. When
  both run out the path matches; a pattern that runs out first matches only a single empty
  segment (a trailing slash); a path that runs out first does not match. A globstar at the
  end of the pattern takes all the remaining segments unless one of them starts with a dot;
  a globstar before other parts tries the rest of the pattern at each segment in turn and
  gives up at a segment that starts with a dot.
\<close>

fun matchOne :: "string list \<Rightarrow> pattern_part list \<Rightarrow> bool" where
  "matchOne [] [] = True"
| "matchOne [] (p # ps) = False"
| "matchOne (f # fs) [] = (fs = [] \<and> f = [])"
| "matchOne (f # fs) [GLOBSTAR] = (\<not> list_ex dotSegment (f # fs))"
| "matchOne (f # fs) (GLOBSTAR # p # ps) =
     (matchOne (f # fs) (p # ps) \<or> (\<not> dotSegment f \<and> matchOne fs (GLOBSTAR # p # ps)))"
| "matchOne (f # fs) (Literal s # ps) = (f = s \<and> matchOne fs ps)"
| "matchOne (f # fs) (Magic s # ps) = (magicTest s f \<and> matchOne fs ps)"

definition minimatch :: "string \<Rightarrow> string \<Rightarrow> bool" where
  "minimatch path pattern =
     (if pattern = [] then path = []
      else matchOne (slashSplit path) (map parse (slashSplit pattern)))"

section \<open>Test-requirement classifier and test-satisfaction matcher\<close>

definition TEST_PATTERNS :: "string list" where
  "TEST_PATTERNS =
     [''**/test/**'', ''**/tests/**'', ''**/*test*'', ''**/*Test*'', ''**/*spec*'',
      ''**/*Spec*'',
      ''**/test_*.py'', ''**/*_test.py'', ''**/tests.py'', ''**/conftest.py'',
      ''**/*.test.ts'', ''**/*.test.js'', ''**/*.spec.ts'', ''**/*.spec.js'',
      ''**/__tests__/**'', ''**/testing/**'', ''**/pytest/**'', ''**/unittest/**'']"

definition EXEMPTION_KEYWORDS :: "string list" where
  "EXEMPTION_KEYWORDS =
     [''no tests needed'', ''test exempt'', ''skip tests'', ''sem necessidade de teste'',
      ''n'' @ [CHR 0xE3] @ ''o requer teste'']"

record Change =
  ln :: "nat option"
  ln2 :: "nat option"
  lineContent :: string

record Chunk =
  content :: string
  changes :: "Change list"

record File =
  to :: "string option"
  chunks :: "Chunk list"

definition truthy :: "string option \<Rightarrow> bool" where
  \<comment> \<open>a string-or-undefined value in a condition: \<open>undefined\<close> and \<open>''\<close> are falsy\<close>
  "truthy v = (case v of None \<Rightarrow> False | Some s \<Rightarrow> s \<noteq> [])"

definition orEmpty :: "string option \<Rightarrow> string" where
  \<comment> \<open>\<open>v || ''\<close> and \<open>v ?? ''\<close>\<close>
  "orEmpty v = (case v of None \<Rightarrow> [] | Some s \<Rightarrow> s)"

definition matchesTestPattern :: "string \<Rightarrow> bool" where
  \<comment> \<open>\<open>TEST_PATTERNS.some(pattern => minimatch(filename, pattern))\<close>\<close>
  "matchesTestPattern filename = list_ex (\<lambda>pattern. minimatch filename pattern) TEST_PATTERNS"

definition testableExtensions :: "string list" where
  "testableExtensions =
     [''.py'', ''.js'', ''.ts'', ''.jsx'', ''.tsx'', ''.vue'', ''.rb'', ''.php'', ''.java'',
      ''.go'', ''.cs'', ''.cpp'', ''.rs'']"

definition excludePatterns :: "string list" where
  "excludePatterns =
     [''.config.'', ''.conf.'', ''.d.ts'', ''settings.py'', ''urls.py'', ''wsgi.py'',
      ''asgi.py'', ''manage.py'']"

definition needsTests :: "File \<Rightarrow> bool" where
  "needsTests f =
     (let filename = orEmpty (to f)
      in if matchesTestPattern filename then False
         else let ext = slice filename (lastIndexOf filename (CHR ''.''))
              in ext \<in> set testableExtensions
                 \<and> \<not> list_ex (\<lambda>pattern. includesStr filename pattern) excludePatterns)"

record TestAnalysisResult =
  hasTests :: bool
  missingTests :: "string list"
  affectedFiles :: "string list"

definition possibleTestPatterns :: "string \<Rightarrow> string list" where
  "possibleTestPatterns f =
     (let baseNameWithoutExt = stripExtension f
      in [baseNameWithoutExt @ ''_test'',
          ''test_'' @ baseNameWithoutExt,
          baseNameWithoutExt @ ''.test'',
          baseNameWithoutExt @ ''.spec'',
          replaceFirst ''src/'' ''test/'' baseNameWithoutExt,
          replaceFirst ''src/'' ''tests/'' baseNameWithoutExt,
          replaceFirst ''app/'' ''tests/'' baseNameWithoutExt,
          replaceAtEnd ''views.py'' ''tests.py'' baseNameWithoutExt,
          replaceAtEnd ''models.py'' ''tests.py'' baseNameWithoutExt])"

definition isTestFile :: "File \<Rightarrow> bool" where
  \<comment> \<open>the filter that builds \<open>testFiles\<close>\<close>
  "isTestFile f =
     (truthy (to f)
      \<and> (matchesTestPattern (orEmpty (to f))
         \<or> includesStr (toLowerCase (orEmpty (to f))) ''test''))"

definition isMissingTest :: "string list \<Rightarrow> string \<Rightarrow> bool" where
  \<comment> \<open>the filter that builds \<open>missingTests\<close>\<close>
  "isMissingTest testFiles f =
     (\<not> list_ex (\<lambda>testFile.
          list_ex (\<lambda>pattern. includesStr (toLowerCase testFile) (toLowerCase pattern))
            (possibleTestPatterns f)) testFiles)"

definition analyzeTests :: "File list \<Rightarrow> TestAnalysisResult" where
  "analyzeTests parsedDiff =
     (let affected = map (\<lambda>f. orEmpty (to f))
                       (filter (\<lambda>f. truthy (to f) \<and> needsTests f) parsedDiff);
          testFiles = map (\<lambda>f. orEmpty (to f)) (filter isTestFile parsedDiff)
      in \<lparr> hasTests = length testFiles > 0,
           missingTests = filter (isMissingTest testFiles) affected,
           affectedFiles = affected \<rparr>)"

definition hasTestExemption :: "string \<Rightarrow> bool" where
  "hasTestExemption description =
     list_ex (\<lambda>keyword. includesStr (toLowerCase description) (toLowerCase keyword))
       EXEMPTION_KEYWORDS"

definition isCodeReviewCommand :: "string \<Rightarrow> bool" where
  "isCodeReviewCommand text = startsWith (trim text) ''/code_review''"

section \<open>Events, configuration and the outside world\<close>

text \<open>
  The event payload, as far as the action reads it. \<open>comment\<close> holds the body of
  \<open>eventData.comment\<close> when the payload has a comment; \<open>issue_pull_request\<close> says
  whether \<open>eventData.issue.pull_request\<close> is present.
\<close>

record IssueData =
  issue_number :: nat
  issue_user_login :: string
  issue_pull_request :: bool

record PullRequestData =
  pr_number :: nat
  pr_user_login :: string

record EventData =
  action :: "string option"
  comment :: "string option"
  issue :: "IssueData option"
  pull_request :: "PullRequestData option"
  repository_owner_login :: string
  repository_name :: string

text \<open>The module-level constants read from the action's inputs.\<close>

record Config =
  AI_PROVIDER :: string
  API_KEY :: string
  MODEL :: string
  AVALIAR_TEST_PR :: bool
  WEBHOOK_URL :: string
  exclude :: string

record PRDetails =
  owner :: string
  repo :: string
  pull_number :: nat
  title :: string
  description :: string
  author_login :: string
  author_name :: string

datatype error = Error string | TypeError string | SyntaxError string

text \<open>
  The texts the action builds from fixed templates are kept symbolic: a constructor stands
  for the template and carries the values interpolated into it.
\<close>

datatype prompt =
    ReviewPrompt "string option" string string Chunk
  | ExemptionPrompt string

datatype message =
    TestWarning "string list"
  | ApprovedWithExceptions string
  | LooksGoodToMe

datatype number = Number string

record ReviewItem =
  lineNumber :: string
  reviewComment :: string

text \<open>
  The value of \<open>JSON.parse(response).reviews\<close>: a falsy value (the key is absent, or
  holds \<open>null\<close>, \<open>false\<close>, \<open>0\<close> or the empty string), a truthy value that is not an
  array, or an array, whose elements are read as objects without a check, as the source does.
\<close>

datatype reviews_field = Absent | NotAnArray | ReviewArray "ReviewItem list"

record ReviewComment =
  body :: string
  path :: string
  line :: number

datatype review_event = COMMENT | APPROVE

text \<open>
  The webhook payload with the fields the action computes; the fields copied from the event
  payload and the timestamp are left out.
\<close>

record WebhookData =
  wh_owner :: string
  wh_repo :: string
  wh_number :: nat
  wh_title :: string
  wh_description :: string
  wh_author_login :: string
  wh_author_name :: string
  missing_tests :: "string list"
  affected_files :: "string list"
  has_tests :: bool
  total_files_analyzed :: nat
  is_exempt :: bool
  exemption_reason :: string
  needs_tests :: bool
  event_type :: string

text \<open>Every call that leaves the process, in the order the run makes them.\<close>

datatype effect =
    PullsGet string string nat
  | UsersGetByUsername string
  | PullsGetDiff string string nat
  | AIRequest prompt
  | IssuesCreateComment string string nat message
  | SendWebhook WebhookData
  | PullsCreateReview string string nat "ReviewComment list" review_event "message option"

text \<open>
  What the outside world answers. A result \<open>Inl e\<close> is the call raising \<open>e\<close>.
  \<open>parseDiff\<close>, \<open>JSON_parse_reviews\<close> and \<open>minimatchExclude\<close> are library functions taken
  as parameters: the diff parser, \<open>JSON.parse(_).reviews\<close>, and \<open>minimatch\<close> on the
  patterns of the \<open>exclude\<close> input, whose syntax is not restricted to the fragment of
  \<open>minimatch\<close> above. \<open>rejects\<close> answers the calls that return no value.
\<close>

record Env =
  pulls_get :: "string \<Rightarrow> string \<Rightarrow> nat \<Rightarrow> error + (string option \<times> string option)"
  users_getByUsername :: "string \<Rightarrow> error + string option"
  pulls_get_diff :: "string \<Rightarrow> string \<Rightarrow> nat \<Rightarrow> error + string option"
  parseDiff :: "string \<Rightarrow> File list"
  openai_create :: "prompt \<Rightarrow> bool \<Rightarrow> error + string option"
  gemini_generateContent :: "prompt \<Rightarrow> error + string"
  JSON_parse_reviews :: "string \<Rightarrow> error + reviews_field"
  minimatchExclude :: "string \<Rightarrow> string \<Rightarrow> bool"
  rejects :: "effect \<Rightarrow> error option"

text \<open>
  An asynchronous function is the list of calls it made and either the error it threw or
  the value it returned.
\<close>

type_synonym 'a run = "effect list \<times> (error + 'a)"

definition returns :: "'a \<Rightarrow> 'a run" where
  "returns x = ([], Inr x)"

definition throws :: "error \<Rightarrow> 'a run" where
  "throws e = ([], Inl e)"

definition andThen :: "'a run \<Rightarrow> ('a \<Rightarrow> 'b run) \<Rightarrow> 'b run" where
  "andThen m k =
     (case m of
        (t, Inl e) \<Rightarrow> (t, Inl e)
      | (t, Inr x) \<Rightarrow> (case k x of (t', r) \<Rightarrow> (t @ t', r)))"

definition catch :: "'a run \<Rightarrow> (error \<Rightarrow> 'a run) \<Rightarrow> 'a run" where
  "catch m handler =
     (case m of
        (t, Inl e) \<Rightarrow> (case handler e of (t', r) \<Rightarrow> (t @ t', r))
      | (t, Inr x) \<Rightarrow> (t, Inr x))"

definition call :: "effect \<Rightarrow> error + 'a \<Rightarrow> 'a run" where
  "call eff answer = ([eff], answer)"

definition post :: "Env \<Rightarrow> effect \<Rightarrow> unit run" where
  "post env eff = call eff (case rejects env eff of None \<Rightarrow> Inr () | Some e \<Rightarrow> Inl e)"

section \<open>Fetching the pull request\<close>

definition issueWithPullRequest :: "EventData \<Rightarrow> IssueData option" where
  \<comment> \<open>\<open>eventData.issue\<close> when \<open>eventData.issue?.pull_request\<close> is truthy\<close>
  "issueWithPullRequest eventData =
     (case issue eventData of
        None \<Rightarrow> None
      | Some i \<Rightarrow> (if issue_pull_request i then Some i else None))"

definition issueOnPullRequest :: "EventData \<Rightarrow> bool" where
  \<comment> \<open>\<open>eventData.issue?.pull_request\<close> as a condition\<close>
  "issueOnPullRequest eventData = (issueWithPullRequest eventData \<noteq> None)"

definition pullNumberAndAuthor :: "EventData \<Rightarrow> error + (nat \<times> string)" where
  \<comment> \<open>the three-way branch of \<open>getPRDetails\<close> that sets \<open>pullNumber\<close> and \<open>prAuthor.login\<close>\<close>
  "pullNumberAndAuthor eventData =
     (case issueWithPullRequest eventData of
        Some i \<Rightarrow> Inr (issue_number i, issue_user_login i)
      | None \<Rightarrow>
          (case pull_request eventData of
             Some p \<Rightarrow> Inr (pr_number p, pr_user_login p)
           | None \<Rightarrow> Inl (Error ''Could not determine pull request number'')))"

definition getPRDetails :: "Env \<Rightarrow> EventData \<Rightarrow> PRDetails run" where
  "getPRDetails env eventData =
     (let ownerLogin = repository_owner_login eventData;
          repoName = repository_name eventData
      in andThen ([], pullNumberAndAuthor eventData) (\<lambda>(pullNumber, login).
         andThen (call (PullsGet ownerLogin repoName pullNumber)
                    (pulls_get env ownerLogin repoName pullNumber))
           (\<lambda>prResponse.
         andThen (call (UsersGetByUsername login) (users_getByUsername env login))
           (\<lambda>name.
         returns \<lparr> owner = ownerLogin, repo = repoName, pull_number = pullNumber,
                   title = orEmpty (fst prResponse),
                   description = orEmpty (snd prResponse),
                   author_login = login,
                   author_name = (if truthy name then orEmpty name else login) \<rparr>))))"

definition getDiff :: "Env \<Rightarrow> string \<Rightarrow> string \<Rightarrow> nat \<Rightarrow> string option run" where
  "getDiff env ownerLogin repoName pullNumber =
     call (PullsGetDiff ownerLogin repoName pullNumber)
       (pulls_get_diff env ownerLogin repoName pullNumber)"

section \<open>The AI backend\<close>

datatype provider = GeminiProvider | OpenAIProvider

definition getAIProvider :: "Config \<Rightarrow> error + provider" where
  "getAIProvider cfg =
     (if API_KEY cfg = [] then Inl (Error ''API_KEY is required'')
      else if AI_PROVIDER cfg = ''gemini'' then Inr GeminiProvider
      else Inr OpenAIProvider)"

definition processReason :: "Config \<Rightarrow> Env \<Rightarrow> provider \<Rightarrow> prompt \<Rightarrow> bool \<Rightarrow> string run" where
  "processReason cfg env p prompt jsonResponse =
     (case p of
        OpenAIProvider \<Rightarrow>
          andThen (call (AIRequest prompt)
                     (openai_create env prompt
                        (jsonResponse \<and> MODEL cfg = ''gpt-4-1106-preview'')))
            (\<lambda>content. if \<not> truthy content
                        then throws (Error ''OpenAI returned empty response'')
                        else returns (orEmpty content))
      | GeminiProvider \<Rightarrow>
          call (AIRequest prompt) (gemini_generateContent env prompt))"

definition createPrompt :: "File \<Rightarrow> Chunk \<Rightarrow> PRDetails \<Rightarrow> prompt" where
  "createPrompt f chunk prDetails =
     ReviewPrompt (to f) (title prDetails) (description prDetails) chunk"

definition getAIResponse :: "Config \<Rightarrow> Env \<Rightarrow> prompt \<Rightarrow> reviews_field run" where
  "getAIResponse cfg env prompt =
     catch
       (andThen ([], getAIProvider cfg) (\<lambda>p.
        andThen (processReason cfg env p prompt True) (\<lambda>response.
        ([], JSON_parse_reviews env response))))
       (\<lambda>error. throws error)"

definition createComment :: "File \<Rightarrow> Chunk \<Rightarrow> ReviewItem list \<Rightarrow> ReviewComment list" where
  "createComment f chunk aiResponses =
     concat (map (\<lambda>aiResponse.
        if \<not> truthy (to f) then []
        else [\<lparr> body = reviewComment aiResponse, path = orEmpty (to f),
                 line = Number (lineNumber aiResponse) \<rparr>]) aiResponses)"

fun analyzeChunks ::
  "Config \<Rightarrow> Env \<Rightarrow> PRDetails \<Rightarrow> File \<Rightarrow> Chunk list \<Rightarrow> ReviewComment list
   \<Rightarrow> ReviewComment list run" where
  "analyzeChunks cfg env prDetails f [] comments = returns comments"
| "analyzeChunks cfg env prDetails f (chunk # rest) comments =
     andThen (getAIResponse cfg env (createPrompt f chunk prDetails)) (\<lambda>aiResponse.
       case aiResponse of
         Absent \<Rightarrow> analyzeChunks cfg env prDetails f rest comments
       | NotAnArray \<Rightarrow> throws (TypeError ''aiResponses.flatMap is not a function'')
       | ReviewArray items \<Rightarrow>
           analyzeChunks cfg env prDetails f rest (comments @ createComment f chunk items))"

fun analyzeFiles ::
  "Config \<Rightarrow> Env \<Rightarrow> PRDetails \<Rightarrow> File list \<Rightarrow> ReviewComment list
   \<Rightarrow> ReviewComment list run" where
  "analyzeFiles cfg env prDetails [] comments = returns comments"
| "analyzeFiles cfg env prDetails (f # rest) comments =
     (if to f = Some ''/dev/null'' then analyzeFiles cfg env prDetails rest comments
      else andThen (analyzeChunks cfg env prDetails f (chunks f) comments)
             (\<lambda>comments'. analyzeFiles cfg env prDetails rest comments'))"

definition analyzeCode :: "Config \<Rightarrow> Env \<Rightarrow> File list \<Rightarrow> PRDetails \<Rightarrow> ReviewComment list run" where
  "analyzeCode cfg env parsedDiff prDetails = analyzeFiles cfg env prDetails parsedDiff []"

section \<open>Exemption details\<close>

record ExemptionDetails =
  isExempt :: bool
  reason :: string

definition fallbackReason :: string where
  "fallbackReason =
     ''Isen'' @ [CHR 0xE7, CHR 0xE3] @ ''o de testes solicitada, mas nenhuma justificativa ''
     @ ''detalhada foi fornecida.''"

definition extractTestExemptionReason :: "Config \<Rightarrow> Env \<Rightarrow> string \<Rightarrow> string option run" where
  "extractTestExemptionReason cfg env descr =
     catch
       (andThen ([], getAIProvider cfg) (\<lambda>p.
        andThen (processReason cfg env p (ExemptionPrompt descr) False) (\<lambda>response.
        if response = [] then returns None else returns (Some (trim response)))))
       (\<lambda>error. returns None)"

definition getTestExemptionDetails :: "Config \<Rightarrow> Env \<Rightarrow> string \<Rightarrow> ExemptionDetails run" where
  "getTestExemptionDetails cfg env descr =
     (if \<not> hasTestExemption descr then returns \<lparr> isExempt = False, reason = [] \<rparr>
      else andThen (extractTestExemptionReason cfg env descr) (\<lambda>detailedReason.
             returns \<lparr> isExempt = True,
                       reason = (if truthy detailedReason then orEmpty detailedReason
                                 else fallbackReason) \<rparr>))"

section \<open>The run\<close>

fun splitFrom :: "char \<Rightarrow> string \<Rightarrow> string \<Rightarrow> string list" where
  "splitFrom sep cur [] = [cur]"
| "splitFrom sep cur (c # cs) =
     (if c = sep then cur # splitFrom sep [] cs else splitFrom sep (cur @ [c]) cs)"

definition split :: "string \<Rightarrow> char \<Rightarrow> string list" where
  "split s sep = splitFrom sep [] s"

definition shouldProcessPR :: "EventData \<Rightarrow> bool" where
  \<comment> \<open>the event gate of \<open>main\<close>: \<open>False\<close> where \<open>main\<close> returns before fetching anything\<close>
  "shouldProcessPR eventData =
     (case comment eventData of
        Some text \<Rightarrow>
          (if \<not> issueOnPullRequest eventData then False
           else if \<not> isCodeReviewCommand text then False
           else True)
      | None \<Rightarrow>
          (pull_request eventData \<noteq> None
           \<and> action eventData \<in> Some ` set [''opened'', ''reopened'', ''synchronize'']))"

definition createReviewComment ::
  "Env \<Rightarrow> string \<Rightarrow> string \<Rightarrow> nat \<Rightarrow> ReviewComment list \<Rightarrow> review_event \<Rightarrow> message option
   \<Rightarrow> unit run" where
  "createReviewComment env ownerLogin repoName pullNumber comments event msg =
     post env (PullsCreateReview ownerLogin repoName pullNumber comments event msg)"

definition sendWebhook :: "Config \<Rightarrow> Env \<Rightarrow> WebhookData \<Rightarrow> unit run" where
  "sendWebhook cfg env d = (if WEBHOOK_URL cfg = [] then returns () else post env (SendWebhook d))"

definition webhookData ::
  "EventData \<Rightarrow> PRDetails \<Rightarrow> File list \<Rightarrow> TestAnalysisResult \<Rightarrow> ExemptionDetails
   \<Rightarrow> WebhookData" where
  "webhookData eventData prDetails parsedDiff testAnalysis testExemptionDetails =
     \<lparr> wh_owner = owner prDetails, wh_repo = repo prDetails,
       wh_number = pull_number prDetails, wh_title = title prDetails,
       wh_description = description prDetails,
       wh_author_login = author_login prDetails, wh_author_name = author_name prDetails,
       missing_tests = missingTests testAnalysis,
       affected_files = affectedFiles testAnalysis,
       has_tests = hasTests testAnalysis,
       total_files_analyzed = length parsedDiff,
       is_exempt = isExempt testExemptionDetails,
       exemption_reason = reason testExemptionDetails,
       needs_tests = (length (affectedFiles testAnalysis) > 0 \<and> \<not> hasTests testAnalysis),
       event_type = (if comment eventData \<noteq> None then ''comment_command'' else ''pr_event'') \<rparr>"

definition testsMissing :: "TestAnalysisResult \<Rightarrow> ExemptionDetails \<Rightarrow> bool" where
  \<comment> \<open>the condition of the warning branch\<close>
  "testsMissing testAnalysis testExemptionDetails =
     (length (affectedFiles testAnalysis) > 0 \<and> \<not> hasTests testAnalysis
      \<and> \<not> isExempt testExemptionDetails)"

definition approvalBody :: "TestAnalysisResult \<Rightarrow> ExemptionDetails \<Rightarrow> message" where
  "approvalBody testAnalysis testExemptionDetails =
     (if length (affectedFiles testAnalysis) > 0 \<and> \<not> hasTests testAnalysis
         \<and> isExempt testExemptionDetails
      then ApprovedWithExceptions (reason testExemptionDetails)
      else LooksGoodToMe)"

definition filteredDiff :: "Config \<Rightarrow> Env \<Rightarrow> File list \<Rightarrow> File list" where
  "filteredDiff cfg env parsedDiff =
     (let patterns = map trim (split (exclude cfg) (CHR '',''))
      in filter (\<lambda>f. \<not> list_ex (\<lambda>pattern. minimatchExclude env (orEmpty (to f)) pattern)
                        patterns) parsedDiff)"

text \<open>
  \<open>main\<close>. The mutable flag \<open>hasIssues\<close> is the value passed from one phase to the next. A
  result \<open>Inl e\<close> is the error that \<open>main\<close> rethrows, which ends the process with exit
  code 1; \<open>Inr ()\<close> is a normal return.
\<close>

definition main :: "Config \<Rightarrow> Env \<Rightarrow> EventData \<Rightarrow> unit run" where
  "main cfg env eventData =
     (if \<not> shouldProcessPR eventData then returns ()
      else
        andThen (getPRDetails env eventData) (\<lambda>prDetails.
        andThen (getDiff env (owner prDetails) (repo prDetails) (pull_number prDetails))
          (\<lambda>diff.
        if \<not> truthy diff then returns ()
        else
          let parsedDiff = parseDiff env (orEmpty diff);
              testAnalysis = analyzeTests parsedDiff
          in
          andThen (getTestExemptionDetails cfg env (description prDetails))
            (\<lambda>testExemptionDetails.
          andThen
            (if testsMissing testAnalysis testExemptionDetails
             then
               andThen
                 (post env (IssuesCreateComment (owner prDetails) (repo prDetails)
                    (pull_number prDetails) (TestWarning (missingTests testAnalysis))))
                 (\<lambda>_.
               andThen
                 (if WEBHOOK_URL cfg \<noteq> []
                  then catch
                         (sendWebhook cfg env
                            (webhookData eventData prDetails parsedDiff testAnalysis
                               testExemptionDetails))
                         (\<lambda>error. returns ())
                  else returns ())
                 (\<lambda>_. returns True))
             else returns False)
            (\<lambda>hasIssues.
          if hasIssues \<and> AVALIAR_TEST_PR cfg then returns ()
          else
            andThen
              (if \<not> AVALIAR_TEST_PR cfg
               then
                 andThen (analyzeCode cfg env (filteredDiff cfg env parsedDiff) prDetails)
                   (\<lambda>comments.
                 if length comments > 0
                 then andThen
                        (createReviewComment env (owner prDetails) (repo prDetails)
                           (pull_number prDetails) comments COMMENT None)
                        (\<lambda>_. returns True)
                 else returns hasIssues)
               else returns hasIssues)
              (\<lambda>hasIssues.
            if \<not> hasIssues
            then createReviewComment env (owner prDetails) (repo prDetails)
                   (pull_number prDetails) [] APPROVE
                   (Some (approvalBody testAnalysis testExemptionDetails))
            else returns ()))))))"

section \<open>Observations on a run\<close>

fun isRead :: "effect \<Rightarrow> bool" where
  "isRead (PullsGet _ _ _) = True"
| "isRead (UsersGetByUsername _) = True"
| "isRead (PullsGetDiff _ _ _) = True"
| "isRead _ = False"

fun isIssueComment :: "effect \<Rightarrow> bool" where
  "isIssueComment (IssuesCreateComment _ _ _ _) = True"
| "isIssueComment _ = False"

fun isReview :: "effect \<Rightarrow> bool" where
  "isReview (PullsCreateReview _ _ _ _ _ _) = True"
| "isReview _ = False"

fun isAIRequest :: "effect \<Rightarrow> bool" where
  "isAIRequest (AIRequest _) = True"
| "isAIRequest _ = False"

fun isReviewRequest :: "effect \<Rightarrow> bool" where
  "isReviewRequest (AIRequest (ReviewPrompt _ _ _ _)) = True"
| "isReviewRequest _ = False"

definition pathContainsTest :: "File \<Rightarrow> bool" where
  \<comment> \<open>the destination path contains \<open>test\<close>, in any letter case\<close>
  "pathContainsTest f =
     (case to f of None \<Rightarrow> False | Some p \<Rightarrow> includesStr (toLowerCase p) ''test'')"

section \<open>The test patterns read segment by segment\<close>

text \<open>
  The directory names and the words that \<open>TEST_PATTERNS\<close> looks for, and the paths on
  which the patterns can be read off segment by segment: every segment is non-empty and
  starts with neither a dot nor a line terminator.
\<close>

definition testDirectories :: "string list" where
  "testDirectories = [''test'', ''tests'', ''__tests__'', ''testing'', ''pytest'', ''unittest'']"

definition testWords :: "string list" where
  "testWords = [''test'', ''Test'', ''spec'', ''Spec'']"

definition plainSegment :: "string \<Rightarrow> bool" where
  "plainSegment seg =
     (case seg of
        [] \<Rightarrow> False
      | c # cs \<Rightarrow> c \<noteq> CHR ''.'' \<and> c \<noteq> CHR 0x0A \<and> c \<noteq> CHR 0x0D)"

definition plainPath :: "string \<Rightarrow> bool" where
  "plainPath p = list_all plainSegment (slashSplit p)"

definition inTestDirectory :: "string \<Rightarrow> bool" where
  \<comment> \<open>a directory of the path, not its last segment, has one of the names\<close>
  "inTestDirectory p = list_ex (\<lambda>dir. dir \<in> set testDirectories) (butlast (slashSplit p))"

definition nameHasTestWord :: "string \<Rightarrow> bool" where
  \<comment> \<open>the last segment of the path contains one of the words, letter for letter\<close>
  "nameHasTestWord p = list_ex (\<lambda>w. includesStr (last (slashSplit p)) w) testWords"

section \<open>The classifier as the specification words it\<close>

definition spec_matchesTestPattern :: "string \<Rightarrow> bool" where
  \<comment> \<open>Follows the specification's words, not the source: the test patterns, with file names
      that contain \<open>test\<close> or \<open>spec\<close> matched in any letter case\<close>
  "spec_matchesTestPattern filename =
     (matchesTestPattern filename
      \<or> includesStr (toLowerCase (last (slashSplit filename))) ''test''
      \<or> includesStr (toLowerCase (last (slashSplit filename))) ''spec'')"

definition spec_needsTests :: "File \<Rightarrow> bool" where
  \<comment> \<open>Follows the specification's words, not the source\<close>
  "spec_needsTests f =
     (let filename = orEmpty (to f)
      in \<not> spec_matchesTestPattern filename
         \<and> slice filename (lastIndexOf filename (CHR ''.'')) \<in> set testableExtensions
         \<and> \<not> list_ex (\<lambda>pattern. includesStr filename pattern) excludePatterns)"

section \<open>Example runs\<close>

definition openedEvent :: EventData where
  "openedEvent =
     \<lparr> action = Some ''opened'', comment = None, issue = None,
       pull_request = Some \<lparr> pr_number = 7, pr_user_login = ''dev'' \<rparr>,
       repository_owner_login = ''acme'', repository_name = ''shop'' \<rparr>"

definition commandEvent :: EventData where
  "commandEvent =
     \<lparr> action = Some ''created'', comment = Some '' /code_review now'',
       issue = Some \<lparr> issue_number = 7, issue_user_login = ''dev'',
                      issue_pull_request = True \<rparr>,
       pull_request = None,
       repository_owner_login = ''acme'', repository_name = ''shop'' \<rparr>"

definition pushEvent :: EventData where
  "pushEvent =
     \<lparr> action = None, comment = None, issue = None, pull_request = None,
       repository_owner_login = ''acme'', repository_name = ''shop'' \<rparr>"

definition exampleConfig :: "bool \<Rightarrow> Config" where
  "exampleConfig testsOnly =
     \<lparr> AI_PROVIDER = ''gemini'', API_KEY = ''key'', MODEL = ''gemini-pro'',
       AVALIAR_TEST_PR = testsOnly, WEBHOOK_URL = [], exclude = [] \<rparr>"

definition examplePR :: "string \<Rightarrow> PRDetails" where
  "examplePR descr =
     \<lparr> owner = ''acme'', repo = ''shop'', pull_number = 7, title = ''Add util'',
       description = descr, author_login = ''dev'', author_name = ''Dev'' \<rparr>"

definition quoted :: "string \<Rightarrow> string" where
  "quoted s = [CHR 0x22] @ s @ [CHR 0x22]"

definition noReviewsJSON :: string where
  "noReviewsJSON = ''{'' @ quoted ''reviews'' @ '':[]}''"

definition oneReviewJSON :: string where
  "oneReviewJSON =
     ''{'' @ quoted ''reviews'' @ '':[{'' @ quoted ''lineNumber'' @ '':'' @ quoted ''12''
     @ '','' @ quoted ''reviewComment'' @ '':'' @ quoted ''Handle null'' @ ''}]}''"

definition exampleParse :: "string \<Rightarrow> error + reviews_field" where
  "exampleParse response =
     (if response = noReviewsJSON then Inr (ReviewArray [])
      else if response = oneReviewJSON
      then Inr (ReviewArray [\<lparr> lineNumber = ''12'', reviewComment = ''Handle null'' \<rparr>])
      else Inl (SyntaxError ''Unexpected token''))"

text \<open>
  An outside world in which the platform answers every call, the diff parses to the given
  files, the pull request has the given description and the backend answers as given.
\<close>

definition exampleEnv :: "File list \<Rightarrow> string \<Rightarrow> (prompt \<Rightarrow> error + string) \<Rightarrow> Env" where
  "exampleEnv files descr backend =
     \<lparr> pulls_get = (\<lambda>_ _ _. Inr (Some ''Add util'', Some descr)),
       users_getByUsername = (\<lambda>_. Inr (Some ''Dev'')),
       pulls_get_diff = (\<lambda>_ _ _. Inr (Some ''diff --git'')),
       parseDiff = (\<lambda>_. files),
       openai_create = (\<lambda>_ _. Inl (Error ''not configured'')),
       gemini_generateContent = backend,
       JSON_parse_reviews = exampleParse,
       minimatchExclude = (\<lambda>_ _. False),
       rejects = (\<lambda>_. None) \<rparr>"

definition hunk1 :: Chunk where
  "hunk1 = \<lparr> content = ''@@ -1,3 +1,4 @@'', changes = [] \<rparr>"

definition hunk2 :: Chunk where
  "hunk2 = \<lparr> content = ''@@ -10,2 +11,3 @@'', changes = [] \<rparr>"

definition utilOnly :: "File list" where
  "utilOnly = [\<lparr> to = Some ''src/util.ts'', chunks = [hunk1] \<rparr>]"

definition utilWithTest :: "File list" where
  "utilWithTest =
     [\<lparr> to = Some ''src/util.ts'', chunks = [hunk1, hunk2] \<rparr>,
      \<lparr> to = Some ''src/util.test.ts'', chunks = [] \<rparr>]"

definition contestOnly :: "File list" where
  "contestOnly = [\<lparr> to = Some ''contest/utils.py'', chunks = [] \<rparr>]"


definition quietBackend :: "prompt \<Rightarrow> error + string" where
  "quietBackend p = Inr noReviewsJSON"

definition failingFirstHunk :: "prompt \<Rightarrow> error + string" where
  \<comment> \<open>the backend raises on the first hunk and has a comment on the second\<close>
  "failingFirstHunk p =
     (if p = ReviewPrompt (Some ''src/util.ts'') ''Add util'' ''Adds a helper'' hunk1
      then Inl (Error ''fetch failed'')
      else Inr oneReviewJSON)"

section \<open>Running a sequence of calls\<close>

lemma andThen_Inr [simp]: "andThen (t, Inr x) k = (t @ fst (k x), snd (k x))"
  by (simp add: andThen_def split: prod.splits)

lemma andThen_Inl [simp]: "andThen (t, Inl e) k = (t, Inl e)"
  by (simp add: andThen_def)

lemma post_accepted: "rejects env eff = None \<Longrightarrow> post env eff = ([eff], Inr ())"
  by (simp add: post_def call_def)


section \<open>Reading the glob patterns\<close>

lemma startsWith_iff: "startsWith s p \<longleftrightarrow> (\<exists>r. s = p @ r)"
  by (induction s p rule: startsWith.induct) auto

lemma includesStr_iff: "includesStr s sub \<longleftrightarrow> (\<exists>a b. s = a @ sub @ b)"
proof (induction s)
  case Nil
  then show ?case by auto
next
  case (Cons c cs)
  show ?case
  proof
    assume "includesStr (c # cs) sub"
    then consider "startsWith (c # cs) sub" | "includesStr cs sub" by auto
    then show "\<exists>a b. c # cs = a @ sub @ b"
    proof cases
      case 1
      then obtain r where "c # cs = sub @ r" by (auto simp: startsWith_iff)
      then have "c # cs = [] @ sub @ r" by simp
      then show ?thesis by blast
    next
      case 2
      with Cons.IH obtain a b where "cs = a @ sub @ b" by blast
      then have "c # cs = (c # a) @ sub @ b" by simp
      then show ?thesis by blast
    qed
  next
    assume "\<exists>a b. c # cs = a @ sub @ b"
    then obtain a b where ab: "c # cs = a @ sub @ b" by blast
    show "includesStr (c # cs) sub"
    proof (cases a)
      case Nil
      with ab have "startsWith (c # cs) sub" by (auto simp: startsWith_iff)
      then show ?thesis by simp
    next
      case (Cons x a')
      with ab have "cs = a' @ sub @ b" by simp
      with Cons.IH have "includesStr cs sub" by blast
      then show ?thesis by simp
    qed
  qed
qed

lemma starMatch_star: "starMatch (CHR ''*'' # ps) f \<longleftrightarrow> (\<exists>a r. f = a @ r \<and> starMatch ps r)"
proof (induction f)
  case Nil
  then show ?case by simp
next
  case (Cons c cs)
  show ?case
  proof
    assume "starMatch (CHR ''*'' # ps) (c # cs)"
    then consider "starMatch ps (c # cs)" | "starMatch (CHR ''*'' # ps) cs" by auto
    then show "\<exists>a r. c # cs = a @ r \<and> starMatch ps r"
    proof cases
      case 1
      then have "c # cs = [] @ (c # cs) \<and> starMatch ps (c # cs)" by simp
      then show ?thesis by blast
    next
      case 2
      with Cons.IH obtain a r where "cs = a @ r" "starMatch ps r" by blast
      then have "c # cs = (c # a) @ r \<and> starMatch ps r" by simp
      then show ?thesis by blast
    qed
  next
    assume "\<exists>a r. c # cs = a @ r \<and> starMatch ps r"
    then obtain a r where ar: "c # cs = a @ r" "starMatch ps r" by blast
    show "starMatch (CHR ''*'' # ps) (c # cs)"
    proof (cases a)
      case Nil
      with ar have "starMatch ps (c # cs)" by simp
      then show ?thesis by simp
    next
      case (Cons x a')
      with ar have "cs = a' @ r" by simp
      with ar(2) Cons.IH have "starMatch (CHR ''*'' # ps) cs" by blast
      then show ?thesis by simp
    qed
  qed
qed

lemma starMatch_literal:
  "CHR ''*'' \<notin> set lit \<Longrightarrow> starMatch (lit @ rest) f \<longleftrightarrow> (\<exists>r. f = lit @ r \<and> starMatch rest r)"
proof (induction lit arbitrary: f)
  case Nil
  then show ?case by simp
next
  case (Cons c lit)
  then show ?case by (cases f) auto
qed

lemma starMatch_contains:
  "CHR ''*'' \<notin> set lit \<Longrightarrow> starMatch (a @ lit @ b) f \<Longrightarrow> includesStr f lit"
proof (induction a arbitrary: f)
  case Nil
  then obtain r where "f = lit @ r" by (auto simp: starMatch_literal)
  then have "f = [] @ lit @ r" by simp
  then show ?case unfolding includesStr_iff by blast
next
  case (Cons c a)
  show ?case
  proof (cases "c = CHR ''*''")
    case True
    with Cons.prems(2) obtain x r where xr: "f = x @ r" "starMatch (a @ lit @ b) r"
      by (auto simp: starMatch_star)
    with Cons.IH [OF Cons.prems(1)] have "includesStr r lit" by blast
    then obtain u v where "r = u @ lit @ v" unfolding includesStr_iff by blast
    with xr have "f = (x @ u) @ lit @ v" by simp
    then show ?thesis unfolding includesStr_iff by blast
  next
    case False
    with Cons.prems(2) obtain r where r: "f = c # r" "starMatch (a @ lit @ b) r"
      by (cases f) auto
    with Cons.IH [OF Cons.prems(1)] have "includesStr r lit" by blast
    then obtain u v where "r = u @ lit @ v" unfolding includesStr_iff by blast
    with r have "f = (c # u) @ lit @ v" by simp
    then show ?thesis unfolding includesStr_iff by blast
  qed
qed

lemma starMatch_word:
  "CHR ''*'' \<notin> set w \<Longrightarrow> starMatch (CHR ''*'' # w @ ''*'') f \<longleftrightarrow> includesStr f w"
proof -
  assume w: "CHR ''*'' \<notin> set w"
  have any: "\<And>r. starMatch ''*'' r" by (simp add: starMatch_star)
  show ?thesis
    unfolding starMatch_star starMatch_literal [OF w] includesStr_iff
    using any by auto
qed


lemma slashSplitFrom_nonempty: "slashSplitFrom cur s \<noteq> []"
  by (induction cur s rule: slashSplitFrom.induct) auto

lemma slashSplit_nonempty: "slashSplit p \<noteq> []"
  by (simp add: slashSplit_def slashSplitFrom_nonempty)

lemma plain_not_dot: "plainSegment f \<Longrightarrow> \<not> dotSegment f"
  by (cases f) (auto simp: plainSegment_def dotSegment_def)

lemma plain_magicTest: "plainSegment f \<Longrightarrow> magicTest pat f = starMatch pat f"
  by (cases f) (auto simp: plainSegment_def magicTest_def)

lemma matchOne_end: "list_all plainSegment fs \<Longrightarrow> matchOne fs [] \<longleftrightarrow> fs = []"
  by (cases fs) (auto simp: plainSegment_def)

lemma matchOne_globstar:
  "list_all plainSegment segs \<Longrightarrow>
   matchOne segs (GLOBSTAR # p # ps)
     \<longleftrightarrow> (\<exists>pre suf. segs = pre @ suf \<and> suf \<noteq> [] \<and> matchOne suf (p # ps))"
proof (induction segs)
  case Nil
  then show ?case by simp
next
  case (Cons f fs)
  then have IH: "matchOne fs (GLOBSTAR # p # ps)
     \<longleftrightarrow> (\<exists>pre suf. fs = pre @ suf \<and> suf \<noteq> [] \<and> matchOne suf (p # ps))"
    and nd: "\<not> dotSegment f"
    by (simp_all add: plain_not_dot)
  show ?case
  proof
    assume "matchOne (f # fs) (GLOBSTAR # p # ps)"
    then consider "matchOne (f # fs) (p # ps)" | "matchOne fs (GLOBSTAR # p # ps)" by auto
    then show "\<exists>pre suf. f # fs = pre @ suf \<and> suf \<noteq> [] \<and> matchOne suf (p # ps)"
    proof cases
      case 1
      then have "f # fs = [] @ (f # fs) \<and> f # fs \<noteq> [] \<and> matchOne (f # fs) (p # ps)" by simp
      then show ?thesis by blast
    next
      case 2
      with IH obtain pre suf where "fs = pre @ suf" "suf \<noteq> []" "matchOne suf (p # ps)" by blast
      then have "f # fs = (f # pre) @ suf \<and> suf \<noteq> [] \<and> matchOne suf (p # ps)" by simp
      then show ?thesis by blast
    qed
  next
    assume "\<exists>pre suf. f # fs = pre @ suf \<and> suf \<noteq> [] \<and> matchOne suf (p # ps)"
    then obtain pre suf where ps: "f # fs = pre @ suf" "suf \<noteq> []" "matchOne suf (p # ps)" by blast
    show "matchOne (f # fs) (GLOBSTAR # p # ps)"
    proof (cases pre)
      case Nil
      with ps have "matchOne (f # fs) (p # ps)" by simp
      then show ?thesis by simp
    next
      case (Cons x pre')
      with ps have "fs = pre' @ suf" by simp
      with ps IH have "matchOne fs (GLOBSTAR # p # ps)" by blast
      with nd show ?thesis by simp
    qed
  qed
qed

lemma plain_last: "list_all plainSegment segs \<Longrightarrow> segs \<noteq> [] \<Longrightarrow> plainSegment (last segs)"
  by (simp add: list_all_iff)

lemma matchOne_name:
  assumes plain: "list_all plainSegment segs" and ne: "segs \<noteq> []"
  shows "matchOne segs [GLOBSTAR, Magic pat] \<longleftrightarrow> starMatch pat (last segs)"
    and "matchOne segs [GLOBSTAR, Literal s] \<longleftrightarrow> last segs = s"
proof -
  have single: "\<And>suf part. list_all plainSegment suf \<Longrightarrow> suf \<noteq> [] \<Longrightarrow>
      matchOne suf [part] \<Longrightarrow> part \<noteq> GLOBSTAR \<Longrightarrow> suf = [last suf]"
    subgoal for suf part
      by (cases suf; cases part) (auto simp: matchOne_end)
    done
  have suffix_plain: "\<And>pre suf. segs = pre @ suf \<Longrightarrow> list_all plainSegment suf"
    using plain by auto
  show "matchOne segs [GLOBSTAR, Magic pat] \<longleftrightarrow> starMatch pat (last segs)"
  proof
    assume "matchOne segs [GLOBSTAR, Magic pat]"
    then obtain pre suf where ps: "segs = pre @ suf" "suf \<noteq> []" "matchOne suf [Magic pat]"
      using matchOne_globstar [OF plain] by blast
    with single [OF suffix_plain [OF ps(1)] ps(2) ps(3)] have s: "suf = [last segs]" by simp
    from plain_last [OF plain ne] ps(3) s show "starMatch pat (last segs)"
      by (simp add: plain_magicTest)
  next
    assume m: "starMatch pat (last segs)"
    from ne have d: "segs = butlast segs @ [last segs]" by simp
    from plain_last [OF plain ne] m have "matchOne [last segs] [Magic pat]"
      by (simp add: plain_magicTest)
    with d show "matchOne segs [GLOBSTAR, Magic pat]"
      using matchOne_globstar [OF plain] by blast
  qed
  show "matchOne segs [GLOBSTAR, Literal s] \<longleftrightarrow> last segs = s"
  proof
    assume "matchOne segs [GLOBSTAR, Literal s]"
    then obtain pre suf where ps: "segs = pre @ suf" "suf \<noteq> []" "matchOne suf [Literal s]"
      using matchOne_globstar [OF plain] by blast
    with single [OF suffix_plain [OF ps(1)] ps(2) ps(3)] have s: "suf = [last segs]" by simp
    with ps(3) show "last segs = s"
      by simp
  next
    assume m: "last segs = s"
    from ne have d: "segs = butlast segs @ [last segs]" by simp
    from m have "matchOne [last segs] [Literal s]" by simp
    with d show "matchOne segs [GLOBSTAR, Literal s]"
      using matchOne_globstar [OF plain] by blast
  qed
qed

lemma matchOne_directory:
  assumes plain: "list_all plainSegment segs"
  shows "matchOne segs [GLOBSTAR, Literal dir, GLOBSTAR] \<longleftrightarrow> dir \<in> set (butlast segs)"
proof
  assume "matchOne segs [GLOBSTAR, Literal dir, GLOBSTAR]"
  then obtain pre suf where ps: "segs = pre @ suf" "suf \<noteq> []"
      "matchOne suf [Literal dir, GLOBSTAR]"
    using matchOne_globstar [OF plain] by blast
  then obtain rest where r: "suf = dir # rest" "rest \<noteq> []"
    by (cases suf; cases "tl suf") auto
  with ps(1) have "butlast segs = pre @ dir # butlast rest" by (simp add: butlast_append)
  then show "dir \<in> set (butlast segs)" by simp
next
  assume "dir \<in> set (butlast segs)"
  then obtain pre post where pp: "butlast segs = pre @ dir # post"
    by (meson split_list)
  then have ne: "segs \<noteq> []" by auto
  then have d: "segs = pre @ dir # (post @ [last segs])"
    using pp by (metis append_Cons append_assoc append_butlast_last_id)
  have "set (post @ [last segs]) \<subseteq> set segs"
    by (subst (2) d) auto
  with plain have "\<not> list_ex dotSegment (post @ [last segs])"
    using plain_not_dot by (auto simp: list_all_iff list_ex_iff)
  then have "matchOne (dir # (post @ [last segs])) [Literal dir, GLOBSTAR]"
    by (cases "post @ [last segs]") auto
  with d show "matchOne segs [GLOBSTAR, Literal dir, GLOBSTAR]"
    using matchOne_globstar [OF plain] by blast
qed


lemma test_patterns_parsed:
  "map (\<lambda>q. map parse (slashSplit q)) TEST_PATTERNS =
     [[GLOBSTAR, Literal ''test'', GLOBSTAR], [GLOBSTAR, Literal ''tests'', GLOBSTAR],
      [GLOBSTAR, Magic ''*test*''], [GLOBSTAR, Magic ''*Test*''],
      [GLOBSTAR, Magic ''*spec*''], [GLOBSTAR, Magic ''*Spec*''],
      [GLOBSTAR, Magic ''test_*.py''], [GLOBSTAR, Magic ''*_test.py''],
      [GLOBSTAR, Literal ''tests.py''], [GLOBSTAR, Literal ''conftest.py''],
      [GLOBSTAR, Magic ''*.test.ts''], [GLOBSTAR, Magic ''*.test.js''],
      [GLOBSTAR, Magic ''*.spec.ts''], [GLOBSTAR, Magic ''*.spec.js''],
      [GLOBSTAR, Literal ''__tests__'', GLOBSTAR], [GLOBSTAR, Literal ''testing'', GLOBSTAR],
      [GLOBSTAR, Literal ''pytest'', GLOBSTAR], [GLOBSTAR, Literal ''unittest'', GLOBSTAR]]"
  by code_simp

lemma matchesTestPattern_parts:
  "matchesTestPattern p
     = list_ex (matchOne (slashSplit p)) (map (\<lambda>q. map parse (slashSplit q)) TEST_PATTERNS)"
proof -
  have "\<forall>q \<in> set TEST_PATTERNS. q \<noteq> []"
    by (simp add: TEST_PATTERNS_def)
  then show ?thesis
    by (auto simp: matchesTestPattern_def minimatch_def list_ex_iff)
qed

lemma word_patterns:
  "starMatch ''*test*'' f = includesStr f ''test''"
  "starMatch ''*Test*'' f = includesStr f ''Test''"
  "starMatch ''*spec*'' f = includesStr f ''spec''"
  "starMatch ''*Spec*'' f = includesStr f ''Spec''"
  using starMatch_word [of "''test''" f] starMatch_word [of "''Test''" f]
    starMatch_word [of "''spec''" f] starMatch_word [of "''Spec''" f]
  by simp_all

lemma covered_patterns:
  "starMatch ''test_*.py'' f \<Longrightarrow> includesStr f ''test''"
  "starMatch ''*_test.py'' f \<Longrightarrow> includesStr f ''test''"
  "starMatch ''*.test.ts'' f \<Longrightarrow> includesStr f ''test''"
  "starMatch ''*.test.js'' f \<Longrightarrow> includesStr f ''test''"
  "starMatch ''*.spec.ts'' f \<Longrightarrow> includesStr f ''spec''"
  "starMatch ''*.spec.js'' f \<Longrightarrow> includesStr f ''spec''"
  using starMatch_contains [of "''test''" "[]" "''_*.py''" f]
    starMatch_contains [of "''test''" "''*_''" "''.py''" f]
    starMatch_contains [of "''test''" "''*.''" "''.ts''" f]
    starMatch_contains [of "''test''" "''*.''" "''.js''" f]
    starMatch_contains [of "''spec''" "''*.''" "''.ts''" f]
    starMatch_contains [of "''spec''" "''*.''" "''.js''" f]
  by simp_all

lemma covered_names:
  "includesStr ''tests.py'' ''test''" "includesStr ''conftest.py'' ''test''"
  by simp_all

lemma matchesTestPattern_plain:
  assumes "plainPath p"
  shows "matchesTestPattern p \<longleftrightarrow> inTestDirectory p \<or> nameHasTestWord p"
proof -
  let ?segs = "slashSplit p"
  from assms have plain: "list_all plainSegment ?segs" by (simp add: plainPath_def)
  note ne = slashSplit_nonempty [of p]
  note name = matchOne_name [OF plain ne]
  note dir = matchOne_directory [OF plain]
  have m: "matchesTestPattern p \<longleftrightarrow>
      ''test'' \<in> set (butlast ?segs) \<or> ''tests'' \<in> set (butlast ?segs)
      \<or> includesStr (last ?segs) ''test'' \<or> includesStr (last ?segs) ''Test''
      \<or> includesStr (last ?segs) ''spec'' \<or> includesStr (last ?segs) ''Spec''
      \<or> starMatch ''test_*.py'' (last ?segs) \<or> starMatch ''*_test.py'' (last ?segs)
      \<or> last ?segs = ''tests.py'' \<or> last ?segs = ''conftest.py''
      \<or> starMatch ''*.test.ts'' (last ?segs) \<or> starMatch ''*.test.js'' (last ?segs)
      \<or> starMatch ''*.spec.ts'' (last ?segs) \<or> starMatch ''*.spec.js'' (last ?segs)
      \<or> ''__tests__'' \<in> set (butlast ?segs) \<or> ''testing'' \<in> set (butlast ?segs)
      \<or> ''pytest'' \<in> set (butlast ?segs) \<or> ''unittest'' \<in> set (butlast ?segs)"
    unfolding matchesTestPattern_parts test_patterns_parsed
    by (simp only: list_ex_Cons_iff list_ex_Nil_iff name dir word_patterns simp_thms)
  have d: "inTestDirectory p \<longleftrightarrow>
      ''test'' \<in> set (butlast ?segs) \<or> ''tests'' \<in> set (butlast ?segs)
      \<or> ''__tests__'' \<in> set (butlast ?segs) \<or> ''testing'' \<in> set (butlast ?segs)
      \<or> ''pytest'' \<in> set (butlast ?segs) \<or> ''unittest'' \<in> set (butlast ?segs)"
    by (auto simp: inTestDirectory_def testDirectories_def list_ex_iff)
  have w: "nameHasTestWord p \<longleftrightarrow>
      includesStr (last ?segs) ''test'' \<or> includesStr (last ?segs) ''Test''
      \<or> includesStr (last ?segs) ''spec'' \<or> includesStr (last ?segs) ''Spec''"
    by (simp add: nameHasTestWord_def testWords_def)
  show ?thesis
    unfolding m d w
    using covered_patterns [of "last ?segs"] covered_names
    by auto
qed

section \<open>The classifier\<close>

lemma slice_subset: "set (slice s i) \<subseteq> set s"
  by (simp add: slice_def Let_def set_drop_subset)

lemma testable_has_dot: "ext \<in> set testableExtensions \<Longrightarrow> CHR ''.'' \<in> set ext"
  by (auto simp: testableExtensions_def)

text \<open>
  Claim C7. A file whose path contains no dot is never classified as needing tests: the
  extension the classifier reads off such a path is its last character (or nothing), and
  every testable extension has a dot in it.
\<close>

theorem needsTests_without_dot:
  "CHR ''.'' \<notin> set (orEmpty (to f)) \<Longrightarrow> \<not> needsTests f"
proof
  assume nodot: "CHR ''.'' \<notin> set (orEmpty (to f))" and nt: "needsTests f"
  let ?name = "orEmpty (to f)"
  from nt have "slice ?name (lastIndexOf ?name (CHR ''.'')) \<in> set testableExtensions"
    by (simp add: needsTests_def Let_def split: if_splits)
  then have "CHR ''.'' \<in> set (slice ?name (lastIndexOf ?name (CHR ''.'')))"
    by (rule testable_has_dot)
  with slice_subset have "CHR ''.'' \<in> set ?name" by blast
  with nodot show False by contradiction
qed

theorem needsTests_without_dot_witness:
  "CHR ''.'' \<notin> set (orEmpty (to \<lparr> to = Some ''Makefile'', chunks = [] \<rparr>))
   \<and> \<not> needsTests \<lparr> to = Some ''Makefile'', chunks = [] \<rparr>"
proof -
  have h: "CHR ''.'' \<notin> set (orEmpty (to \<lparr> to = Some ''Makefile'', chunks = [] \<rparr>))"
    by (simp add: orEmpty_def)
  from needsTests_without_dot [OF h] h show ?thesis by simp
qed

text \<open>
  Claim C5, as amended. A file needs tests exactly when its path matches none of the test
  patterns as the glob matcher evaluates them, its extension is one of the testable
  extensions, and its path contains none of the excluded fragments; so a file that matches
  a test pattern never needs tests. The glob matcher compares letters exactly: a path of
  plain segments matches a test pattern exactly when one of its directories is named
  \<open>test\<close>, \<open>tests\<close>, \<open>__tests__\<close>, \<open>testing\<close>, \<open>pytest\<close> or \<open>unittest\<close>, or its
  file name contains \<open>test\<close>, \<open>Test\<close>, \<open>spec\<close> or \<open>Spec\<close>.
\<close>

theorem needsTests_iff:
  "(needsTests f \<longleftrightarrow>
      \<not> matchesTestPattern (orEmpty (to f))
      \<and> slice (orEmpty (to f)) (lastIndexOf (orEmpty (to f)) (CHR ''.''))
          \<in> set testableExtensions
      \<and> \<not> list_ex (\<lambda>pattern. includesStr (orEmpty (to f)) pattern) excludePatterns)
   \<and> (matchesTestPattern (orEmpty (to f)) \<longrightarrow> \<not> needsTests f)
   \<and> (plainPath (orEmpty (to f)) \<longrightarrow>
        (matchesTestPattern (orEmpty (to f))
           \<longleftrightarrow> inTestDirectory (orEmpty (to f)) \<or> nameHasTestWord (orEmpty (to f))))"
  using matchesTestPattern_plain [of "orEmpty (to f)"]
  by (simp add: needsTests_def Let_def)

theorem needsTests_iff_witness:
  "needsTests \<lparr> to = Some ''src/app.py'', chunks = [] \<rparr>
   \<and> \<not> matchesTestPattern ''src/app.py''
   \<and> \<not> needsTests \<lparr> to = Some ''src/Widget.test.ts'', chunks = [] \<rparr>
   \<and> plainPath ''src/Widget.test.ts''
   \<and> nameHasTestWord ''src/Widget.test.ts''
   \<and> matchesTestPattern ''src/Widget.test.ts''
   \<and> \<not> needsTests \<lparr> to = Some ''src/settings.py'', chunks = [] \<rparr>"
proof -
  have a: "plainPath ''src/app.py''"
    by code_simp
  have a': "\<not> inTestDirectory ''src/app.py'' \<and> \<not> nameHasTestWord ''src/app.py''"
    by code_simp
  have b: "slice ''src/app.py'' (lastIndexOf ''src/app.py'' (CHR ''.'')) \<in> set testableExtensions"
    by code_simp
  have c: "\<not> list_ex (\<lambda>pattern. includesStr ''src/app.py'' pattern) excludePatterns"
    by code_simp
  have d: "plainPath ''src/Widget.test.ts''"
    by code_simp
  have d': "nameHasTestWord ''src/Widget.test.ts''"
    by code_simp
  have e: "list_ex (\<lambda>pattern. includesStr ''src/settings.py'' pattern) excludePatterns"
    by code_simp
  show ?thesis
    using a a' b c d d' e
      needsTests_iff [of "\<lparr> to = Some ''src/app.py'', chunks = [] \<rparr>"]
      needsTests_iff [of "\<lparr> to = Some ''src/Widget.test.ts'', chunks = [] \<rparr>"]
      needsTests_iff [of "\<lparr> to = Some ''src/settings.py'', chunks = [] \<rparr>"]
    by (simp add: orEmpty_def)
qed

text \<open>
  The claim as the specification words it fails on a file name that spells \<open>TEST\<close> in
  capitals: no pattern matches \<open>src/MYTEST.py\<close>, and the classifier says it needs tests.
\<close>

theorem needsTests_uppercase_counterexample:
  "needsTests \<lparr> to = Some ''src/MYTEST.py'', chunks = [] \<rparr>
     \<noteq> spec_needsTests \<lparr> to = Some ''src/MYTEST.py'', chunks = [] \<rparr>"
  by code_simp

section \<open>The matcher\<close>


section \<open>The event gate\<close>

lemma accepted_resolves:
  "shouldProcessPR ev \<Longrightarrow> \<exists>n login. pullNumberAndAuthor ev = Inr (n, login)"
  by (auto simp: shouldProcessPR_def pullNumberAndAuthor_def issueOnPullRequest_def
           split: option.splits if_splits)

lemma getPRDetails_first_call:
  "pullNumberAndAuthor ev = Inr (n, login) \<Longrightarrow>
   \<exists>rest. fst (getPRDetails env ev)
     = PullsGet (repository_owner_login ev) (repository_name ev) n # rest"
  by (cases "pulls_get env (repository_owner_login ev) (repository_name ev) n";
      cases "users_getByUsername env login")
     (simp_all add: getPRDetails_def Let_def call_def returns_def)

text \<open>
  Claim C10. When the event gate has accepted the event, the branch of \<open>getPRDetails\<close>
  that throws \<open>Could not determine pull request number\<close> is not taken: a pull request
  number is resolved, and the first call \<open>getPRDetails\<close> makes is the fetch of that pull
  request.
\<close>

theorem accepted_event_has_pull_number:
  "shouldProcessPR ev \<Longrightarrow>
   pullNumberAndAuthor ev \<noteq> Inl (Error ''Could not determine pull request number'')
   \<and> (\<exists>n login. pullNumberAndAuthor ev = Inr (n, login)
        \<and> hd (fst (getPRDetails env ev))
            = PullsGet (repository_owner_login ev) (repository_name ev) n)"
proof -
  assume "shouldProcessPR ev"
  then obtain n login where r: "pullNumberAndAuthor ev = Inr (n, login)"
    using accepted_resolves by blast
  from getPRDetails_first_call [OF r, of env]
  have "hd (fst (getPRDetails env ev))
          = PullsGet (repository_owner_login ev) (repository_name ev) n"
    by auto
  with r show ?thesis by simp
qed

theorem accepted_event_has_pull_number_witness:
  "shouldProcessPR commandEvent
   \<and> pullNumberAndAuthor commandEvent \<noteq> Inl (Error ''Could not determine pull request number'')
   \<and> (\<exists>n login. pullNumberAndAuthor commandEvent = Inr (n, login)
        \<and> hd (fst (getPRDetails (exampleEnv utilOnly [] quietBackend) commandEvent))
            = PullsGet (repository_owner_login commandEvent) (repository_name commandEvent) n)"
proof -
  have h: "shouldProcessPR commandEvent" by code_simp
  from accepted_event_has_pull_number [OF h, of "exampleEnv utilOnly [] quietBackend"] h
  show ?thesis by simp
qed

text \<open>
  Claim C8. An event with a comment is processed exactly when the comment is on a pull
  request and its body, trimmed, starts with \<open>/code_review\<close>. A run makes a call to the
  outside exactly when the gate accepts its event. An event that is neither such a comment
  nor a pull request that was opened, reopened or synchronized makes \<open>main\<close> return
  normally with no call made.
\<close>

theorem event_gate:
  "(comment ev = Some text \<longrightarrow>
      (shouldProcessPR ev \<longleftrightarrow> issueOnPullRequest ev \<and> startsWith (trim text) ''/code_review''))
   \<and> (fst (main cfg env ev) \<noteq> [] \<longrightarrow> shouldProcessPR ev)
   \<and> (shouldProcessPR ev \<longrightarrow> fst (main cfg env ev) \<noteq> [])
   \<and> (\<not> (\<exists>body. comment ev = Some body \<and> issueOnPullRequest ev
              \<and> startsWith (trim body) ''/code_review'')
      \<and> \<not> (pull_request ev \<noteq> None
            \<and> action ev \<in> {Some ''opened'', Some ''reopened'', Some ''synchronize''})
      \<longrightarrow> main cfg env ev = ([], Inr ()))"
proof (intro conjI impI)
  assume "comment ev = Some text"
  then show "shouldProcessPR ev \<longleftrightarrow> issueOnPullRequest ev \<and> startsWith (trim text) ''/code_review''"
    by (simp add: shouldProcessPR_def isCodeReviewCommand_def)
next
  assume "fst (main cfg env ev) \<noteq> []"
  then show "shouldProcessPR ev"
    by (auto simp: main_def returns_def split: if_splits)
next
  assume a: "shouldProcessPR ev"
  then obtain n login where r: "pullNumberAndAuthor ev = Inr (n, login)"
    using accepted_resolves by blast
  from getPRDetails_first_call [OF r, of env] obtain rest where
    f: "fst (getPRDetails env ev) = PullsGet (repository_owner_login ev) (repository_name ev) n # rest"
    by blast
  obtain t res where g: "getPRDetails env ev = (t, res)" by (cases "getPRDetails env ev")
  with f have "t \<noteq> []" by auto
  with a g show "fst (main cfg env ev) \<noteq> []"
    by (cases res) (simp_all add: main_def)
next
  assume "\<not> (\<exists>body. comment ev = Some body \<and> issueOnPullRequest ev
              \<and> startsWith (trim body) ''/code_review'')
      \<and> \<not> (pull_request ev \<noteq> None
            \<and> action ev \<in> {Some ''opened'', Some ''reopened'', Some ''synchronize''})"
  then have "\<not> shouldProcessPR ev"
    by (auto simp: shouldProcessPR_def isCodeReviewCommand_def split: option.splits)
  then show "main cfg env ev = ([], Inr ())"
    by (simp add: main_def returns_def)
qed

theorem event_gate_witness:
  "comment commandEvent = Some '' /code_review now''
   \<and> shouldProcessPR commandEvent
   \<and> fst (main (exampleConfig True) (exampleEnv utilOnly [] quietBackend) commandEvent) \<noteq> []
   \<and> main (exampleConfig True) (exampleEnv utilOnly [] quietBackend) pushEvent = ([], Inr ())"
proof -
  have c: "comment commandEvent = Some '' /code_review now''" by (simp add: commandEvent_def)
  have p: "issueOnPullRequest commandEvent \<and> startsWith (trim '' /code_review now'') ''/code_review''"
    by code_simp
  have n: "\<not> (\<exists>body. comment pushEvent = Some body \<and> issueOnPullRequest pushEvent
              \<and> startsWith (trim body) ''/code_review'')
      \<and> \<not> (pull_request pushEvent \<noteq> None
            \<and> action pushEvent \<in> {Some ''opened'', Some ''reopened'', Some ''synchronize''})"
    by (simp add: pushEvent_def)
  from event_gate [of commandEvent "'' /code_review now''" "exampleConfig True"
        "exampleEnv utilOnly [] quietBackend"]
       event_gate [of pushEvent "[]" "exampleConfig True" "exampleEnv utilOnly [] quietBackend"]
       c p n
  show ?thesis by blast
qed

section \<open>The calls each phase makes\<close>

lemma getPRDetails_reads: "\<forall>e \<in> set (fst (getPRDetails env ev)). isRead e"
proof (cases "pullNumberAndAuthor ev")
  case (Inl e)
  then show ?thesis by (simp add: getPRDetails_def Let_def)
next
  case (Inr p)
  obtain n login where p: "p = (n, login)" by (cases p)
  show ?thesis using Inr p
    by (cases "pulls_get env (repository_owner_login ev) (repository_name ev) n";
        cases "users_getByUsername env login")
       (simp_all add: getPRDetails_def Let_def call_def returns_def)
qed

lemma processReason_trace:
  "fst (processReason cfg env p prompt j) = [AIRequest prompt]"
  by (cases p; cases "openai_create env prompt (j \<and> MODEL cfg = ''gpt-4-1106-preview'')")
     (simp_all add: processReason_def call_def throws_def returns_def)

lemma extract_trace:
  "set (fst (extractTestExemptionReason cfg env d)) \<subseteq> {AIRequest (ExemptionPrompt d)}
   \<and> (\<exists>x. snd (extractTestExemptionReason cfg env d) = Inr x)"
proof (cases "getAIProvider cfg")
  case (Inl e)
  then show ?thesis by (simp add: extractTestExemptionReason_def catch_def returns_def)
next
  case (Inr p)
  obtain t r where pr: "processReason cfg env p (ExemptionPrompt d) False = (t, r)"
    by (cases "processReason cfg env p (ExemptionPrompt d) False")
  with processReason_trace [of cfg env p "ExemptionPrompt d" False]
  have t: "t = [AIRequest (ExemptionPrompt d)]" by simp
  show ?thesis using Inr pr t
    by (cases r) (simp_all add: extractTestExemptionReason_def catch_def returns_def)
qed

lemma exemption_details_trace:
  "set (fst (getTestExemptionDetails cfg env d)) \<subseteq> {AIRequest (ExemptionPrompt d)}"
  using extract_trace [of cfg env d]
  by (cases "extractTestExemptionReason cfg env d")
     (auto simp: getTestExemptionDetails_def returns_def)

lemma exemption_details_returns:
  "\<exists>x. snd (getTestExemptionDetails cfg env d) = Inr x \<and> isExempt x = hasTestExemption d"
  using extract_trace [of cfg env d]
  by (cases "extractTestExemptionReason cfg env d")
     (auto simp: getTestExemptionDetails_def returns_def)


lemma getAIResponse_trace:
  "set (fst (getAIResponse cfg env prompt)) \<subseteq> {AIRequest prompt}"
proof (cases "getAIProvider cfg")
  case (Inl e)
  then show ?thesis by (simp add: getAIResponse_def catch_def throws_def)
next
  case (Inr p)
  obtain t r where pr: "processReason cfg env p prompt True = (t, r)"
    by (cases "processReason cfg env p prompt True")
  with processReason_trace [of cfg env p prompt True]
  have t: "t = [AIRequest prompt]" by simp
  show ?thesis using Inr pr t
    by (cases r; cases "JSON_parse_reviews env (projr r)")
       (simp_all add: getAIResponse_def catch_def throws_def)
qed

lemma getAIResponse_review_requests:
  "\<forall>e \<in> set (fst (getAIResponse cfg env (createPrompt f c pr))). isReviewRequest e"
  using getAIResponse_trace [of cfg env "createPrompt f c pr"]
  by (auto simp: createPrompt_def)

lemma analyzeChunks_trace:
  "\<forall>e \<in> set (fst (analyzeChunks cfg env pr f cs acc)). isReviewRequest e"
proof (induction cs arbitrary: acc)
  case Nil
  then show ?case by (simp add: returns_def)
next
  case (Cons c cs)
  obtain t r where g: "getAIResponse cfg env (createPrompt f c pr) = (t, r)"
    by (cases "getAIResponse cfg env (createPrompt f c pr)")
  with getAIResponse_review_requests [of cfg env f c pr]
  have t: "\<forall>e \<in> set t. isReviewRequest e" by simp
  show ?case
  proof (cases r)
    case (Inl e)
    with g t show ?thesis by simp
  next
    case (Inr v)
    with g t Cons.IH show ?thesis
      by (cases v) (auto simp: throws_def)
  qed
qed

lemma analyzeFiles_trace:
  "\<forall>e \<in> set (fst (analyzeFiles cfg env pr fs acc)). isReviewRequest e"
proof (induction fs arbitrary: acc)
  case Nil
  then show ?case by (simp add: returns_def)
next
  case (Cons f fs)
  obtain t r where g: "analyzeChunks cfg env pr f (chunks f) acc = (t, r)"
    by (cases "analyzeChunks cfg env pr f (chunks f) acc")
  with analyzeChunks_trace [of cfg env pr f "chunks f" acc]
  have t: "\<forall>e \<in> set t. isReviewRequest e" by simp
  show ?case using g t Cons.IH
    by (cases r) auto
qed

lemma analyzeCode_trace:
  "\<forall>e \<in> set (fst (analyzeCode cfg env pd pr)). isReviewRequest e"
  by (simp add: analyzeCode_def analyzeFiles_trace)

lemma isReviewRequest_simps2:
  "isReviewRequest e \<Longrightarrow> \<not> isIssueComment e \<and> \<not> isReview e \<and> isAIRequest e"
  by (cases e) auto

lemma isRead_simps2:
  "isRead e \<Longrightarrow> \<not> isIssueComment e \<and> \<not> isReview e \<and> \<not> isAIRequest e"
  by (cases e) auto

lemma reads_filtered:
  "\<forall>e \<in> set t. isRead e \<Longrightarrow>
   filter isIssueComment t = [] \<and> filter isReview t = [] \<and> filter isAIRequest t = []
   \<and> filter isReviewRequest t = []"
proof -
  assume a: "\<forall>e \<in> set t. isRead e"
  have "\<And>e. isRead e \<Longrightarrow>
          \<not> isIssueComment e \<and> \<not> isReview e \<and> \<not> isAIRequest e \<and> \<not> isReviewRequest e"
    subgoal for e by (cases e) auto
    done
  with a show ?thesis by (simp add: filter_empty_conv)
qed

lemma exemption_requests_filtered:
  "set t \<subseteq> {AIRequest (ExemptionPrompt d)} \<Longrightarrow>
   filter isIssueComment t = [] \<and> filter isReview t = [] \<and> filter isReviewRequest t = []"
  by (auto simp: filter_empty_conv)


section \<open>The missing-tests warning\<close>

lemma pathContainsTest_hasTests:
  "\<exists>f \<in> set parsedDiff. pathContainsTest f \<Longrightarrow> hasTests (analyzeTests parsedDiff)"
proof -
  assume "\<exists>f \<in> set parsedDiff. pathContainsTest f"
  then obtain f where f: "f \<in> set parsedDiff" "pathContainsTest f" by blast
  then obtain p where p: "to f = Some p" "includesStr (toLowerCase p) ''test''"
    by (auto simp: pathContainsTest_def split: option.splits)
  have "p \<noteq> []" using p(2) by (cases p) (simp_all add: toLowerCase_def)
  with p have "isTestFile f" by (simp add: isTestFile_def truthy_def orEmpty_def)
  with f(1) have "filter isTestFile parsedDiff \<noteq> []" by (auto simp: filter_empty_conv)
  then show ?thesis by (simp add: analyzeTests_def Let_def)
qed

lemma main_no_warning:
  assumes "\<And>ow rp n d. pulls_get_diff env ow rp n = Inr (Some d)
             \<Longrightarrow> hasTests (analyzeTests (parseDiff env d))"
  shows "\<forall>e \<in> set (fst (main cfg env ev)). \<not> isIssueComment e"
proof (cases "shouldProcessPR ev")
  case False
  then show ?thesis by (simp add: main_def returns_def)
next
  case True
  obtain t1 r1 where g1: "getPRDetails env ev = (t1, r1)" by (cases "getPRDetails env ev")
  with getPRDetails_reads [of env ev] have t1: "\<forall>e \<in> set t1. \<not> isIssueComment e"
    using isRead_simps2 by auto
  show ?thesis
  proof (cases r1)
    case (Inl e)
    with True g1 t1 show ?thesis by (simp add: main_def)
  next
    case (Inr pr)
    show ?thesis
    proof (cases "pulls_get_diff env (owner pr) (repo pr) (pull_number pr)")
      case (Inl e)
      with True g1 t1 Inr show ?thesis by (simp add: main_def getDiff_def call_def)
    next
      case diff: (Inr diff)
      show ?thesis
      proof (cases "truthy diff")
        case False
        with True g1 t1 Inr diff show ?thesis
          by (simp add: main_def getDiff_def call_def returns_def)
      next
        case tr: True
        then obtain d where d: "diff = Some d" by (cases diff) (simp_all add: truthy_def)
        from assms diff d have ht: "hasTests (analyzeTests (parseDiff env d))" by blast
        obtain t2 r2 where g2: "getTestExemptionDetails cfg env (description pr) = (t2, r2)"
          by (cases "getTestExemptionDetails cfg env (description pr)")
        with exemption_details_trace [of cfg env "description pr"]
        have t2: "\<forall>e \<in> set t2. \<not> isIssueComment e" by auto
        from g2 exemption_details_returns [of cfg env "description pr"]
        obtain ex where r2: "r2 = Inr ex" by auto
        obtain t3 r3 where g3:
          "analyzeCode cfg env (filteredDiff cfg env (parseDiff env d)) pr = (t3, r3)"
          by (cases "analyzeCode cfg env (filteredDiff cfg env (parseDiff env d)) pr")
        with analyzeCode_trace [of cfg env "filteredDiff cfg env (parseDiff env d)" pr]
        have t3: "\<forall>e \<in> set t3. \<not> isIssueComment e"
          using isReviewRequest_simps2 by auto
        show ?thesis
          using True g1 t1 Inr diff d tr ht g2 t2 r2 g3 t3
          by (cases r3)
             (auto simp: main_def getDiff_def call_def returns_def orEmpty_def Let_def
                         testsMissing_def createReviewComment_def post_def
                   split: option.splits)
      qed
    qed
  qed
qed

text \<open>
  Claim C9. When some changed file has \<open>test\<close> in its destination path, in any
  letter case, \<open>hasTests\<close> is true and the run posts no issue comment, whichever files
  lack a companion test. The witness is \<open>contest/utils.py\<close>, a source file that is at
  the same time classified as needing tests.
\<close>

theorem test_in_path_suppresses_warning:
  assumes "list_ex pathContainsTest parsedDiff"
    and "\<And>ow rp n d. pulls_get_diff env ow rp n = Inr (Some d) \<Longrightarrow> parseDiff env d = parsedDiff"
  shows "hasTests (analyzeTests parsedDiff)
         \<and> filter isIssueComment (fst (main cfg env ev)) = []"
proof -
  from assms(1) have ex: "\<exists>f \<in> set parsedDiff. pathContainsTest f"
    by (simp add: list_ex_iff)
  then have ht: "hasTests (analyzeTests parsedDiff)"
    by (rule pathContainsTest_hasTests)
  have "\<And>ow rp n d. pulls_get_diff env ow rp n = Inr (Some d)
          \<Longrightarrow> hasTests (analyzeTests (parseDiff env d))"
    using assms(2) ht by simp
  then have "\<forall>e \<in> set (fst (main cfg env ev)). \<not> isIssueComment e"
    by (rule main_no_warning)
  with ht show ?thesis by (simp add: filter_empty_conv)
qed

theorem test_in_path_suppresses_warning_witness:
  "list_ex pathContainsTest contestOnly
   \<and> needsTests \<lparr> to = Some ''contest/utils.py'', chunks = [] \<rparr>
   \<and> affectedFiles (analyzeTests contestOnly) = [''contest/utils.py'']
   \<and> hasTests (analyzeTests contestOnly)
   \<and> filter isIssueComment
        (fst (main (exampleConfig True) (exampleEnv contestOnly ''Adds a helper'' quietBackend)
                openedEvent)) = []"
proof -
  have h1: "list_ex pathContainsTest contestOnly"
    by code_simp
  have h2: "\<And>ow rp n d.
              pulls_get_diff (exampleEnv contestOnly ''Adds a helper'' quietBackend) ow rp n
                = Inr (Some d)
              \<Longrightarrow> parseDiff (exampleEnv contestOnly ''Adds a helper'' quietBackend) d
                    = contestOnly"
    by (simp add: exampleEnv_def)
  have n: "needsTests \<lparr> to = Some ''contest/utils.py'', chunks = [] \<rparr>"
    by code_simp
  have a: "affectedFiles (analyzeTests contestOnly) = [''contest/utils.py'']"
    by code_simp
  from test_in_path_suppresses_warning
         [OF h1 h2, where cfg = "exampleConfig True" and ev = openedEvent] h1 n a
  show ?thesis
    by simp
qed



section \<open>Review and approval\<close>

text \<open>
  Claim C2, as amended. With the tests-only flag set, when the warning branch is not taken,
  the review phase is skipped (no review request goes to the AI backend) and the run ends by
  posting one review: an approval without comments, whose body is the plain message, or the
  message with the exemption reason when tests are required, absent and exempt.
\<close>

theorem tests_only_without_warning_approves:
  assumes flag: "AVALIAR_TEST_PR cfg"
    and gate: "shouldProcessPR ev"
    and details: "getPRDetails env ev = (t, Inr pr)"
    and diff: "pulls_get_diff env (owner pr) (repo pr) (pull_number pr) = Inr (Some d)"
    and nonempty: "d \<noteq> []"
    and exemption: "getTestExemptionDetails cfg env (description pr) = (t2, Inr ex)"
    and nowarning: "\<not> testsMissing (analyzeTests (parseDiff env d)) ex"
    and posted: "rejects env (PullsCreateReview (owner pr) (repo pr) (pull_number pr) []
                   APPROVE (Some (approvalBody (analyzeTests (parseDiff env d)) ex))) = None"
  shows "main cfg env ev =
           (t @ [PullsGetDiff (owner pr) (repo pr) (pull_number pr)] @ t2
              @ [PullsCreateReview (owner pr) (repo pr) (pull_number pr) [] APPROVE
                   (Some (approvalBody (analyzeTests (parseDiff env d)) ex))],
            Inr ())
         \<and> filter isReviewRequest (fst (main cfg env ev)) = []
         \<and> filter isIssueComment (fst (main cfg env ev)) = []
         \<and> filter isReview (fst (main cfg env ev)) =
             [PullsCreateReview (owner pr) (repo pr) (pull_number pr) [] APPROVE
                (Some (approvalBody (analyzeTests (parseDiff env d)) ex))]"
proof -
  have run: "main cfg env ev =
           (t @ [PullsGetDiff (owner pr) (repo pr) (pull_number pr)] @ t2
              @ [PullsCreateReview (owner pr) (repo pr) (pull_number pr) [] APPROVE
                   (Some (approvalBody (analyzeTests (parseDiff env d)) ex))],
            Inr ())"
    using flag gate details diff nonempty exemption nowarning post_accepted [OF posted]
    by (simp add: main_def getDiff_def call_def truthy_def orEmpty_def Let_def
                  createReviewComment_def returns_def)
  from details getPRDetails_reads [of env ev] have "\<forall>e \<in> set t. isRead e" by simp
  note a = reads_filtered [OF this]
  from exemption exemption_details_trace [of cfg env "description pr"]
  have "set t2 \<subseteq> {AIRequest (ExemptionPrompt (description pr))}" by simp
  note b = exemption_requests_filtered [OF this]
  from a b run show ?thesis by simp
qed

theorem tests_only_without_warning_approves_witness:
  "main (exampleConfig True) (exampleEnv utilWithTest ''Adds a helper'' quietBackend)
     openedEvent
     = ([PullsGet ''acme'' ''shop'' 7, UsersGetByUsername ''dev'',
         PullsGetDiff ''acme'' ''shop'' 7,
         PullsCreateReview ''acme'' ''shop'' 7 [] APPROVE (Some LooksGoodToMe)],
        Inr ())
   \<and> filter isReviewRequest
        (fst (main (exampleConfig True)
                (exampleEnv utilWithTest ''Adds a helper'' quietBackend) openedEvent)) = []"
proof -
  let ?cfg = "exampleConfig True"
  let ?env = "exampleEnv utilWithTest ''Adds a helper'' quietBackend"
  let ?pr = "examplePR ''Adds a helper''"
  let ?d = "''diff --git''"
  let ?ex = "\<lparr> isExempt = False, reason = [] \<rparr>"
  have h1: "AVALIAR_TEST_PR ?cfg"
    by (simp add: exampleConfig_def)
  have h2: "shouldProcessPR openedEvent"
    by code_simp
  have h3: "getPRDetails ?env openedEvent
              = ([PullsGet ''acme'' ''shop'' 7, UsersGetByUsername ''dev''], Inr ?pr)"
    by code_simp
  have h4: "pulls_get_diff ?env (owner ?pr) (repo ?pr) (pull_number ?pr) = Inr (Some ?d)"
    by (simp add: exampleEnv_def)
  have h5: "?d \<noteq> []"
    by simp
  have h6: "getTestExemptionDetails ?cfg ?env (description ?pr) = ([], Inr ?ex)"
    by code_simp
  have h7: "\<not> testsMissing (analyzeTests (parseDiff ?env ?d)) ?ex"
    by code_simp
  have h8: "rejects ?env (PullsCreateReview (owner ?pr) (repo ?pr) (pull_number ?pr) []
              APPROVE (Some (approvalBody (analyzeTests (parseDiff ?env ?d)) ?ex))) = None"
    by (simp add: exampleEnv_def)
  have b: "approvalBody (analyzeTests (parseDiff ?env ?d)) ?ex = LooksGoodToMe"
    by code_simp
  from tests_only_without_warning_approves [OF h1 h2 h3 h4 h5 h6 h7 h8] b
  show ?thesis
    by (simp add: examplePR_def)
qed

text \<open>
  The claim as the specification words it says that no approval is posted in such a run. A
  pull request that changes \<open>src/util.ts\<close> together with \<open>src/util.test.ts\<close> is
  approved.
\<close>

theorem tests_only_approval_counterexample:
  "AVALIAR_TEST_PR (exampleConfig True)
   \<and> missingTests (analyzeTests utilWithTest) = []
   \<and> filter isIssueComment
        (fst (main (exampleConfig True)
                (exampleEnv utilWithTest ''Adds a helper'' quietBackend) openedEvent)) = []
   \<and> filter isReview
        (fst (main (exampleConfig True)
                (exampleEnv utilWithTest ''Adds a helper'' quietBackend) openedEvent))
       = [PullsCreateReview ''acme'' ''shop'' 7 [] APPROVE (Some LooksGoodToMe)]"
  by code_simp




text \<open>
  Claim C1. The code at a run where the backend raises on the first of two hunks and has a
  comment on the second: \<open>getAIResponse\<close> rethrows, \<open>analyzeCode\<close> does not catch,
  and the run ends with that error after the first request. The second hunk is never sent
  and no review is posted.
\<close>

theorem backend_failure_aborts_run:
  "main (exampleConfig False) (exampleEnv utilWithTest ''Adds a helper'' failingFirstHunk)
     openedEvent
     = ([PullsGet ''acme'' ''shop'' 7, UsersGetByUsername ''dev'',
         PullsGetDiff ''acme'' ''shop'' 7,
         AIRequest (ReviewPrompt (Some ''src/util.ts'') ''Add util'' ''Adds a helper'' hunk1)],
        Inl (Error ''fetch failed''))
   \<and> getAIResponse (exampleConfig False)
       (exampleEnv utilWithTest ''Adds a helper'' failingFirstHunk)
       (ReviewPrompt (Some ''src/util.ts'') ''Add util'' ''Adds a helper'' hunk2)
     = ([AIRequest (ReviewPrompt (Some ''src/util.ts'') ''Add util'' ''Adds a helper'' hunk2)],
        Inr (ReviewArray [\<lparr> lineNumber = ''12'', reviewComment = ''Handle null'' \<rparr>]))"
  by code_simp

end
